theory Spec2Isabelle
  imports Complex_Main
begin

section \<open>Numbers\<close>

text \<open>
  The module is Python 2 code on numpy arrays. Two models of its numbers are used.

  The line shapes are evaluated in float64 arithmetic, modelled below: the claim about
  them is about the exact result of that arithmetic. Their arguments are float64 values;
  integer arguments, which Python 2 would divide with the floor division, are another
  type and are not modelled there.

  The computations on images and curves are modelled in exact real arithmetic. There, a
  numpy division by zero, which yields \<^verbatim>\<open>inf\<close> or \<^verbatim>\<open>nan\<close> and does not raise, has the
  value \<open>None\<close>.
\<close>

definition np_divide :: "real \<Rightarrow> real \<Rightarrow> real option" where
  "np_divide a b = (if b = 0 then None else Some (a / b))"

text \<open>
  Rounding to the nearest integer and, half way between two integers, to the even one.
  This is \<^verbatim>\<open>n.around(x, decimals = 0)\<close>, and the rounding of the significand in float64
  arithmetic.
\<close>

definition around :: "real \<Rightarrow> real" where
  "around x =
     (let f = \<lfloor>x\<rfloor>; d = x - of_int f
      in if d < 1 / 2 then of_int f
         else if 1 / 2 < d then of_int (f + 1)
         else if even f then of_int f else of_int (f + 1))"

subsection \<open>float64 arithmetic\<close>

text \<open>
  A float64 value is a finite number, an infinity or \<^verbatim>\<open>nan\<close>. The sign of a zero is
  not modelled: the only divisors that can be zero in the line shapes are squares and
  sums of squares, which are never the negative zero.
\<close>

datatype f64 = Fin real | PInf | NInf | NaN

text \<open>
  Rounding of a real number to float64, to the nearest value and to the even significand
  in a tie. A number \<open>x\<close> with \<open>2^e \<le> |x| < 2^(e+1)\<close> is rounded to a multiple of
  \<open>2^(e-52)\<close> (53 significant bits), and for \<open>e < -1022\<close> to a multiple of \<open>2^(-1074)\<close> (the
  subnormal numbers, and 0 below them). A result of magnitude \<open>2^1024\<close> or more is an
  infinity.
\<close>

definition ulp_exponent :: "real \<Rightarrow> int" where
  "ulp_exponent x = max \<lfloor>log 2 \<bar>x\<bar>\<rfloor> (- 1022) - 52"

definition round64 :: "real \<Rightarrow> f64" where
  "round64 x =
     (if x = 0 then Fin 0
      else (let u = 2 powr real_of_int (ulp_exponent x);
                m = around (x / u) * u
            in if 2 ^ 1024 \<le> \<bar>m\<bar> then (if 0 < x then PInf else NInf) else Fin m))"

text \<open>
  The operations: the exact result, rounded, on finite operands, and the rules of
  IEEE 754 for the infinities and \<^verbatim>\<open>nan\<close>. On numpy values a division by zero yields an
  infinity or \<^verbatim>\<open>nan\<close> (on plain Python floats it raises ZeroDivisionError instead; in
  both cases there is no number).
\<close>

definition f64_inf :: "bool \<Rightarrow> f64" where
  "f64_inf positive = (if positive then PInf else NInf)"

definition f64_neg :: "f64 \<Rightarrow> f64" where
  "f64_neg a = (case a of Fin x \<Rightarrow> Fin (- x) | PInf \<Rightarrow> NInf | NInf \<Rightarrow> PInf | NaN \<Rightarrow> NaN)"

fun f64_add :: "f64 \<Rightarrow> f64 \<Rightarrow> f64" where
  "f64_add (Fin x) (Fin y) = round64 (x + y)"
| "f64_add NaN b = NaN"
| "f64_add a NaN = NaN"
| "f64_add PInf NInf = NaN"
| "f64_add NInf PInf = NaN"
| "f64_add PInf b = PInf"
| "f64_add NInf b = NInf"
| "f64_add a PInf = PInf"
| "f64_add a NInf = NInf"

definition f64_sub :: "f64 \<Rightarrow> f64 \<Rightarrow> f64" where
  "f64_sub a b = f64_add a (f64_neg b)"

fun f64_mul :: "f64 \<Rightarrow> f64 \<Rightarrow> f64" where
  "f64_mul (Fin x) (Fin y) = round64 (x * y)"
| "f64_mul NaN b = NaN"
| "f64_mul a NaN = NaN"
| "f64_mul (Fin x) b = (if x = 0 then NaN else f64_inf ((0 < x) = (b = PInf)))"
| "f64_mul a (Fin y) = (if y = 0 then NaN else f64_inf ((0 < y) = (a = PInf)))"
| "f64_mul a b = f64_inf (a = b)"

fun f64_div :: "f64 \<Rightarrow> f64 \<Rightarrow> f64" where
  "f64_div (Fin x) (Fin y) =
     (if y = 0 then (if x = 0 then NaN else f64_inf (0 < x)) else round64 (x / y))"
| "f64_div NaN b = NaN"
| "f64_div a NaN = NaN"
| "f64_div (Fin x) b = Fin 0"
| "f64_div a (Fin y) = f64_inf ((0 \<le> y) = (a = PInf))"
| "f64_div a b = NaN"

text \<open>\<^verbatim>\<open>a**2\<close> on a float64 value is the rounded product of \<open>a\<close> with itself.\<close>

definition f64_sqr :: "f64 \<Rightarrow> f64" where
  "f64_sqr a = f64_mul a a"

text \<open>
  \<^verbatim>\<open>n.exp\<close> is the exponential of the C library. The model rounds the exact value; the
  library may differ from it in the last digit, but not at 0, where the value is 1.
\<close>

definition f64_exp :: "f64 \<Rightarrow> f64" where
  "f64_exp a = (case a of Fin x \<Rightarrow> round64 (exp x) | PInf \<Rightarrow> PInf | NInf \<Rightarrow> Fin 0 | NaN \<Rightarrow> NaN)"

section \<open>Helper functions: the line shapes\<close>

text \<open>
  \<^verbatim>\<open>exponent = (-(x-xc)**2)/((2*width_g)**2); return n.exp(exponent)\<close>
\<close>

definition Gaussian :: "f64 \<Rightarrow> f64 \<Rightarrow> f64 \<Rightarrow> f64" where
  "Gaussian x xc width_g =
     (let exponent = f64_div (f64_neg (f64_sqr (f64_sub x xc)))
                             (f64_sqr (f64_mul (Fin 2) width_g))
      in f64_exp exponent)"

text \<open>
  \<^verbatim>\<open>core = ((width_l/2)**2)/( (x-xc)**2 + (width_l/2)**2 ); return core\<close>
\<close>

definition Lorentzian :: "f64 \<Rightarrow> f64 \<Rightarrow> f64 \<Rightarrow> f64" where
  "Lorentzian x xc width_l =
     (let core = f64_div (f64_sqr (f64_div width_l (Fin 2)))
                   (f64_add (f64_sqr (f64_sub x xc)) (f64_sqr (f64_div width_l (Fin 2))))
      in core)"

text \<open>
  \<^verbatim>\<open>return height*(0.5*Gaussian(x, xc, width_g) + 0.5*Lorentzian(x, xc, width_l)) + constant\<close>
\<close>

definition pseudoVoigt :: "f64 \<Rightarrow> f64 \<Rightarrow> f64 \<Rightarrow> f64 \<Rightarrow> f64 \<Rightarrow> f64 \<Rightarrow> f64" where
  "pseudoVoigt x height xc width_g width_l constant =
     f64_add (f64_mul height (f64_add (f64_mul (Fin (1 / 2)) (Gaussian x xc width_g))
                                      (f64_mul (Fin (1 / 2)) (Lorentzian x xc width_l))))
             constant"

text \<open>\<^verbatim>\<open>return a*n.exp(-b*x) + c*n.exp(-d*x) + e\<close>\<close>

definition biexp :: "f64 \<Rightarrow> f64 \<Rightarrow> f64 \<Rightarrow> f64 \<Rightarrow> f64 \<Rightarrow> f64 \<Rightarrow> f64" where
  "biexp x a b c d e =
     f64_add (f64_add (f64_mul a (f64_exp (f64_mul (f64_neg b) x)))
                      (f64_mul c (f64_exp (f64_mul (f64_neg d) x))))
             e"

section \<open>Arrays\<close>

text \<open>
  An image is a two-dimensional array of shape (N, N), stored as the list of its rows:
  \<^verbatim>\<open>im[i, j]\<close> is \<open>im ! i ! j\<close> and \<^verbatim>\<open>im.shape[0]\<close> is \<open>length im\<close>.
\<close>

type_synonym image = "real list list"

definition square :: "image \<Rightarrow> bool" where
  "square im = list_all (\<lambda>row. length row = length im) im"

text \<open>
  \<^verbatim>\<open>n.linspace(start, stop, num)\<close>: \<open>num\<close> evenly spaced samples from \<open>start\<close> to
  \<open>stop\<close>, both included; a single sample is \<open>start\<close>.
\<close>

definition linspace :: "real \<Rightarrow> real \<Rightarrow> nat \<Rightarrow> real list" where
  "linspace start stop num =
     (if num = 1 then [start]
      else map (\<lambda>k. start + real k * ((stop - start) / real (num - 1))) [0..<num])"

text \<open>
  \<^verbatim>\<open>X, Y = n.meshgrid(x, y)\<close> (the default 'xy' indexing): both results have one row for
  each entry of \<open>y\<close> and one column for each entry of \<open>x\<close>, with \<open>X[i][j] = x[j]\<close> and
  \<open>Y[i][j] = y[i]\<close>.
\<close>

definition meshgrid :: "real list \<Rightarrow> real list \<Rightarrow> real list list \<times> real list list" where
  "meshgrid x y = (map (\<lambda>_. x) y, map (\<lambda>v. map (\<lambda>_. v) x) y)"

text \<open>\<^verbatim>\<open>n.mean\<close>: the mean of an empty array is \<^verbatim>\<open>nan\<close>.\<close>

definition mean :: "real list \<Rightarrow> real option" where
  "mean xs = np_divide (sum_list xs) (real (length xs))"

section \<open>Finding the center of the diffraction pattern\<close>

text \<open>
  The pixels that \<^verbatim>\<open>circ\<close> samples, in the row-major order of \<^verbatim>\<open>n.where\<close>:
  \<^verbatim>\<open>
  s = im.shape[0]
  xgscaled, ygscaled, rgscaled = n.array([xg,yg,rg])*scalefactor
  xMat, yMat = n.meshgrid(n.linspace(1, s, s),n.linspace(1, s, s))
  residual = (xMat-xgscaled)**2+(yMat-ygscaled)**2-rgscaled**2
  xvals, yvals = n.where(((residual < 10) & (yMat > 550)))
  \<close>
  The first component of a pair is the row index (the source's \<^verbatim>\<open>xvals\<close>), the second
  the column index.
\<close>

definition circ_where :: "real \<Rightarrow> real \<Rightarrow> real \<Rightarrow> image \<Rightarrow> real \<Rightarrow> (nat \<times> nat) list" where
  "circ_where xg yg rg im scalefactor =
     (let s = length im;
          xgscaled = xg * scalefactor;
          ygscaled = yg * scalefactor;
          rgscaled = rg * scalefactor;
          (xMat, yMat) = meshgrid (linspace 1 (real s) s) (linspace 1 (real s) s)
      in [(i, j). i \<leftarrow> [0..<s], j \<leftarrow> [0..<s],
            (xMat ! i ! j - xgscaled) ^ 2 + (yMat ! i ! j - ygscaled) ^ 2 - rgscaled ^ 2 < 10
            \<and> yMat ! i ! j > 550])"

text \<open>
  \<^verbatim>\<open>ftemp = n.mean(im[xvals, yvals]); return 1/ftemp\<close>. The value is \<open>None\<close> where numpy
  yields \<^verbatim>\<open>nan\<close> (no pixel sampled) or \<^verbatim>\<open>inf\<close> (mean intensity zero).
\<close>

definition circ :: "real \<Rightarrow> real \<Rightarrow> real \<Rightarrow> image \<Rightarrow> real \<Rightarrow> real option" where
  "circ xg yg rg im scalefactor =
     (case mean (map (\<lambda>(i, j). im ! i ! j) (circ_where xg yg rg im scalefactor)) of
        None \<Rightarrow> None
      | Some ftemp \<Rightarrow> np_divide 1 ftemp)"

text \<open>
  The objective of \<^verbatim>\<open>fCenter\<close>, \<^verbatim>\<open>c1 = lambda x: circ(x[0],x[1],x[2],im)\<close>: the
  scale factor of \<^verbatim>\<open>circ\<close> is left at its default, 20.
\<close>

definition c1 :: "image \<Rightarrow> real \<times> real \<times> real \<Rightarrow> real option" where
  "c1 im = (\<lambda>(x0, x1, x2). circ x0 x1 x2 im 20)"

text \<open>
  The cost written on the pixel coordinates, for the statement of claim C10: the pixel
  in row \<open>i\<close> and column \<open>j\<close> has the coordinates \<open>x = j + 1\<close> and \<open>y = i + 1\<close>; the
  pixels taken for the circle with center \<open>(xc, yc)\<close> and radius \<open>r\<close> are those with
  \<open>(x - xc)^2 + (y - yc)^2 - r^2 < 10\<close> and \<open>y > 550\<close>, and the cost is the reciprocal of
  their mean intensity.
\<close>

definition disc_pixels :: "nat \<Rightarrow> real \<Rightarrow> real \<Rightarrow> real \<Rightarrow> (nat \<times> nat) list" where
  "disc_pixels s xc yc r =
     [(i, j). i \<leftarrow> [0..<s], j \<leftarrow> [0..<s],
        (real j + 1 - xc) ^ 2 + (real i + 1 - yc) ^ 2 - r ^ 2 < 10 \<and> 550 < real i + 1]"

definition reciprocal_mean_intensity :: "image \<Rightarrow> real \<Rightarrow> real \<Rightarrow> real \<Rightarrow> real option" where
  "reciprocal_mean_intensity im xc yc r =
     (case mean (map (\<lambda>(i, j). im ! i ! j) (disc_pixels (length im) xc yc r)) of
        None \<Rightarrow> None
      | Some m \<Rightarrow> np_divide 1 m)"

text \<open>
  \<^verbatim>\<open>opt.minimize(c1, x0, method = 'Nelder-Mead').x\<close> is a library routine: it is a
  parameter of the model, any function from an objective and a starting point to a
  point.
\<close>

type_synonym minimizer =
  "(real \<times> real \<times> real \<Rightarrow> real option) \<Rightarrow> real \<times> real \<times> real \<Rightarrow> real \<times> real \<times> real"

text \<open>
  The guess and the scale factor of \<^verbatim>\<open>fCenter\<close> are Python numbers: integers (the
  docstring asks for integers, and the default scale factor is the integer 20) or
  floats.
\<close>

datatype pynum = is_int: PyInt (int_value: int) | PyFloat real

definition float_of :: "pynum \<Rightarrow> real" where
  "float_of a = (case a of PyInt i \<Rightarrow> of_int i | PyFloat x \<Rightarrow> x)"

text \<open>
  \<^verbatim>\<open>n.array([xg,yg,rg])/scalefactor\<close>. The array of three integers is an integer array,
  and in Python 2 its quotient by an integer is the floor division, element by element
  (numpy yields 0 for an integer division by 0, as \<open>div\<close> does). With a float among
  the guess or as the scale factor the division is the true division, and a division by
  zero yields values that are not finite.
\<close>

definition scaled_guess :: "pynum \<Rightarrow> pynum \<Rightarrow> pynum \<Rightarrow> pynum \<Rightarrow> (real \<times> real \<times> real) option" where
  "scaled_guess xg yg rg scalefactor =
     (if is_int xg \<and> is_int yg \<and> is_int rg \<and> is_int scalefactor
      then Some (of_int (int_value xg div int_value scalefactor),
                 of_int (int_value yg div int_value scalefactor),
                 of_int (int_value rg div int_value scalefactor))
      else (case (np_divide (float_of xg) (float_of scalefactor),
                  np_divide (float_of yg) (float_of scalefactor),
                  np_divide (float_of rg) (float_of scalefactor)) of
              (Some xgscaled, Some ygscaled, Some rgscaled) \<Rightarrow> Some (xgscaled, ygscaled, rgscaled)
            | _ \<Rightarrow> None))"

text \<open>
  \<^verbatim>\<open>
  xgscaled, ygscaled, rgscaled = n.array([xg,yg,rg])/scalefactor
  c1 = lambda x: circ(x[0],x[1],x[2],im)
  xcenter, ycenter, rcenter = n.array(opt.minimize(c1,[xgscaled,ygscaled,rgscaled],
      method = 'Nelder-Mead').x)*scalefactor
  rcenter = rg
  return xcenter, ycenter, rcenter
  \<close>
  With a float scale factor of zero the starting point and the returned center are not
  finite, but the function still returns.
\<close>

definition fCenter ::
  "minimizer \<Rightarrow> pynum \<Rightarrow> pynum \<Rightarrow> pynum \<Rightarrow> image \<Rightarrow> pynum
     \<Rightarrow> real option \<times> real option \<times> pynum" where
  "fCenter minimize xg yg rg im scalefactor =
     (case scaled_guess xg yg rg scalefactor of
        Some (xgscaled, ygscaled, rgscaled) \<Rightarrow>
          (let (x, y, r) = minimize (c1 im) (xgscaled, ygscaled, rgscaled);
               xcenter = x * float_of scalefactor;
               ycenter = y * float_of scalefactor;
               rcenter = r * float_of scalefactor;
               rcenter = rg
           in (Some xcenter, Some ycenter, rcenter))
      | None \<Rightarrow> (None, None, rg))"

section \<open>Radial averaging\<close>

text \<open>\<^verbatim>\<open>n.unique\<close>: the sorted list of the distinct values.\<close>

definition unique :: "real list \<Rightarrow> real list" where
  "unique xs = sort (remdups xs)"

text \<open>\<^verbatim>\<open>image.shape[1]\<close>, the length of a row.\<close>

definition shape1 :: "image \<Rightarrow> nat" where
  "shape1 img = (case img of [] \<Rightarrow> 0 | row # _ \<Rightarrow> length row)"

text \<open>
  The matrix of the rounded radial positions:
  \<^verbatim>\<open>
  xc, yc = center
  x = n.linspace(0, image.shape[0], image.shape[0])
  y = n.linspace(0, image.shape[1], image.shape[1])
  X, Y = n.meshgrid(x,y)
  R = n.around(n.sqrt( (X - xc)**2 + (Y - yc)**2 ), decimals = 0)
  \<close>
\<close>

definition radial_positions :: "image \<Rightarrow> real \<times> real \<Rightarrow> real list list" where
  "radial_positions img center =
     (let (xc, yc) = center;
          x = linspace 0 (real (length img)) (length img);
          y = linspace 0 (real (shape1 img)) (shape1 img);
          (X, Y) = meshgrid x y
      in map2 (\<lambda>Xrow Yrow.
                 map2 (\<lambda>Xv Yv. around (sqrt ((Xv - xc) ^ 2 + (Yv - yc) ^ 2))) Xrow Yrow) X Y)"

text \<open>\<^verbatim>\<open>n.ndenumerate(image)\<close>: the index pairs and values of the image, row by row.\<close>

definition ndenumerate :: "image \<Rightarrow> ((nat \<times> nat) \<times> real) list" where
  "ndenumerate img =
     concat (map (\<lambda>i. map (\<lambda>j. ((i, j), img ! i ! j)) [0..<shape1 img]) [0..<length img])"

text \<open>\<^verbatim>\<open>n.where(unique_radii==r)\<close>: the indices at which the value is \<open>r\<close>.\<close>

definition where_eq :: "real list \<Rightarrow> real \<Rightarrow> nat list" where
  "where_eq unique_radii r = filter (\<lambda>k. unique_radii ! k = r) [0..<length unique_radii]"

text \<open>\<^verbatim>\<open>a[ind] += v\<close> for a list \<open>ind\<close> of distinct indices.\<close>

definition add_at :: "nat list \<Rightarrow> real \<Rightarrow> real list \<Rightarrow> real list" where
  "add_at ind v a = fold (\<lambda>k b. b[k := b ! k + v]) ind a"

text \<open>
  The body of the loop over the image, on the pair of the two accumulators:
  \<^verbatim>\<open>
  if i < center[0]:
      continue
  r = R[i,j]
  ind = n.where(unique_radii==r)
  accumulation[ind] += value
  bincount[ind] += 1
  \<close>
\<close>

definition bin_step ::
  "real \<times> real \<Rightarrow> real list list \<Rightarrow> real list \<Rightarrow> (nat \<times> nat) \<times> real
     \<Rightarrow> real list \<times> real list \<Rightarrow> real list \<times> real list" where
  "bin_step center R unique_radii pixel acc =
     (let ((i, j), v) = pixel; (accumulation, bincount) = acc
      in if real i < fst center then (accumulation, bincount)
         else (let r = R ! i ! j;
                   ind = where_eq unique_radii r
               in (add_at ind v accumulation, add_at ind 1 bincount)))"

text \<open>
  \<^verbatim>\<open>
  radius = R.flatten()
  radius = n.around(radius, decimals = 0)
  unique_radii = n.unique(radius)
  accumulation = n.zeros_like(unique_radii)
  bincount =  n.ones_like(unique_radii)
  for (i,j), value in n.ndenumerate(image): ...
  return [unique_radii, n.divide(accumulation,bincount)]
  \<close>
  The sorted copy of the intensities that the source also computes is never read and is
  left out. The image has the shape (N, N).
\<close>

definition radialAverage :: "image \<Rightarrow> real \<times> real \<Rightarrow> real list \<times> real option list" where
  "radialAverage img center =
     (let R = radial_positions img center;
          radius = map around (concat R);
          unique_radii = unique radius;
          accumulation = replicate (length unique_radii) 0;
          bincount = replicate (length unique_radii) 1;
          (accumulation, bincount) =
             fold (bin_step center R unique_radii) (ndenumerate img) (accumulation, bincount)
      in (unique_radii, map2 np_divide accumulation bincount))"

text \<open>
  The values that reach the accumulators of the bin with radius \<open>r\<close>: those of the
  pixels that the loop does not skip and whose radial position is \<open>r\<close>.
\<close>

definition bin_values ::
  "real \<times> real \<Rightarrow> real list list \<Rightarrow> ((nat \<times> nat) \<times> real) list \<Rightarrow> real \<Rightarrow> real list" where
  "bin_values center R pixels r =
     map snd (filter (\<lambda>((i, j), v). \<not> real i < fst center \<and> R ! i ! j = r) pixels)"

definition contributions :: "image \<Rightarrow> real \<times> real \<Rightarrow> real \<Rightarrow> real list" where
  "contributions img center r =
     bin_values center (radial_positions img center) (ndenumerate img) r"

subsection \<open>The call in a store of objects\<close>












section \<open>Inelastic scattering background subtraction\<close>

text \<open>The exceptions that the function can raise.\<close>

datatype error = IndexError | ValueError | RuntimeError

text \<open>
  \<^verbatim>\<open>n.argmin\<close> of a non-empty array: the first index at which the minimum is attained.
\<close>

fun argmin :: "real list \<Rightarrow> nat" where
  "argmin [] = 0"
| "argmin [x] = 0"
| "argmin (x # y # ys) = (let k = argmin (y # ys) in if x \<le> (y # ys) ! k then 0 else Suc k)"

text \<open>
  \<^verbatim>\<open>ind = n.argmin(n.abs(xdata - feature))\<close>, the index of the sample nearest to the
  feature. On an empty array \<^verbatim>\<open>n.argmin\<close> raises a ValueError.
\<close>

definition nearest :: "real list \<Rightarrow> real \<Rightarrow> nat" where
  "nearest xdata feature = argmin (map (\<lambda>x. \<bar>x - feature\<bar>) xdata)"

definition nearest_index :: "real list \<Rightarrow> real \<Rightarrow> error + nat" where
  "nearest_index xdata feature =
     (if xdata = [] then Inl ValueError else Inr (nearest xdata feature))"

text \<open>\<^verbatim>\<open>n.arange(start, stop)\<close> on integers: \<open>start, start + 1, ..., stop - 1\<close>.\<close>

definition arange :: "int \<Rightarrow> int \<Rightarrow> int list" where
  "arange start stop = map (\<lambda>d. start + int d) [0..<nat (stop - start)]"

text \<open>
  \<^verbatim>\<open>a[chunk_ind]\<close>, indexing with an array of integers. An index \<open>q\<close> is valid when
  \<open>- len \<le> q < len\<close>; a negative index counts from the end of the array. Any other index
  raises an IndexError.
\<close>

definition take_indices :: "real list \<Rightarrow> int list \<Rightarrow> error + real list" where
  "take_indices a inds =
     (let len = int (length a)
      in if list_all (\<lambda>q. - len \<le> q \<and> q < len) inds
         then Inr (map (\<lambda>q. a ! nat (if q < 0 then q + len else q)) inds)
         else Inl IndexError)"

text \<open>
  The first loop, over the features:
  \<^verbatim>\<open>
  for feature in xfeatures:
      ind = n.argmin(n.abs(xdata - feature))
      chunk_ind = n.arange(ind - chunk_size, ind + chunk_size + 1)
      xchunks.append(xdata[chunk_ind])
      ychunks.append(ydata[chunk_ind])
  \<close>
\<close>

fun chunks :: "real list \<Rightarrow> real list \<Rightarrow> int \<Rightarrow> real list \<Rightarrow> error + (real list \<times> real list) list" where
  "chunks xdata ydata chunk_size [] = Inr []"
| "chunks xdata ydata chunk_size (feature # features) =
     (case nearest_index xdata feature of
        Inl e \<Rightarrow> Inl e
      | Inr ind \<Rightarrow>
          (let chunk_ind = arange (int ind - chunk_size) (int ind + chunk_size + 1)
           in case take_indices xdata chunk_ind of
                Inl e \<Rightarrow> Inl e
              | Inr xchunk \<Rightarrow>
                  (case take_indices ydata chunk_ind of
                     Inl e \<Rightarrow> Inl e
                   | Inr ychunk \<Rightarrow>
                       (case chunks xdata ydata chunk_size features of
                          Inl e \<Rightarrow> Inl e
                        | Inr rest \<Rightarrow> Inr ((xchunk, ychunk) # rest)))))"

text \<open>
  \<^verbatim>\<open>opt.curve_fit(pseudoVoigt, xchunk, ychunk, p0 = parameter_guesses)[0]\<close> is a library
  routine: it is a parameter of the model, a function from the model function, the
  data and the initial guess to the five fitted parameters, or to \<open>None\<close> when the fit
  fails (\<^verbatim>\<open>curve_fit\<close> then raises a RuntimeError).
\<close>

type_synonym params = "real \<times> real \<times> real \<times> real \<times> real"

type_synonym fitter =
  "(f64 \<Rightarrow> f64 \<Rightarrow> f64 \<Rightarrow> f64 \<Rightarrow> f64 \<Rightarrow> f64 \<Rightarrow> f64)
     \<Rightarrow> real list \<Rightarrow> real list \<Rightarrow> params \<Rightarrow> params option"

text \<open>
  For the examples: a fit that stops at once and returns the initial guess as the fitted
  parameters.
\<close>

definition fit_initial_guess :: fitter where
  "fit_initial_guess f xchunk ychunk p0 = Some p0"

text \<open>
  \<^verbatim>\<open>[ychunk.max()-ychunk.min(), (xchunk.max()-xchunk.min())/2, 1, 1, ychunk.min()]\<close>
\<close>

definition parameter_guesses :: "real list \<Rightarrow> real list \<Rightarrow> params" where
  "parameter_guesses xchunk ychunk =
     (Max (set ychunk) - Min (set ychunk), (Max (set xchunk) - Min (set xchunk)) / 2, 1, 1,
      Min (set ychunk))"

text \<open>
  The second loop, over the chunks. The maximum of an empty chunk raises a ValueError.
  The constant is the last fitted parameter:
  \<^verbatim>\<open>
  for xchunk, ychunk in zip(xchunks, ychunks):
      parameter_guesses = [...]
      opt_parameters = opt.curve_fit(pseudoVoigt, xchunk, ychunk, p0 = parameter_guesses)[0]
      constants.append(opt_parameters[-1]*n.ones_like(xchunk))
  \<close>
\<close>

fun fit_constants :: "fitter \<Rightarrow> (real list \<times> real list) list \<Rightarrow> error + real list list" where
  "fit_constants curve_fit [] = Inr []"
| "fit_constants curve_fit ((xchunk, ychunk) # rest) =
     (if ychunk = [] \<or> xchunk = [] then Inl ValueError
      else case curve_fit pseudoVoigt xchunk ychunk (parameter_guesses xchunk ychunk) of
             None \<Rightarrow> Inl RuntimeError
           | Some (height, xc, width_g, width_l, constant) \<Rightarrow>
               (case fit_constants curve_fit rest of
                  Inl e \<Rightarrow> Inl e
                | Inr constants \<Rightarrow> Inr (replicate (length xchunk) constant # constants)))"

text \<open>
  \<^verbatim>\<open>n.interp(x, xp, fp)\<close>, the linear interpolation of numpy, for sample points \<open>xp\<close> in
  increasing order (numpy does not check the order and documents no result for other
  sample points). Left of the first sample point the value is the first of \<open>fp\<close>, right
  of the last one it is the last of \<open>fp\<close>. In between, with \<open>xp[j] \<le> x < xp[j+1]\<close>, the
  value is \<open>fp[j]\<close> when \<open>x = xp[j]\<close> and
  \<open>(fp[j+1] - fp[j]) / (xp[j+1] - xp[j]) * (x - xp[j]) + fp[j]\<close> otherwise. Without sample
  points, or with \<open>xp\<close> and \<open>fp\<close> of different lengths, it raises a ValueError.
\<close>

fun interp_at :: "real \<Rightarrow> (real \<times> real) list \<Rightarrow> real" where
  "interp_at x [] = 0"
| "interp_at x [(x0, y0)] = y0"
| "interp_at x ((x0, y0) # (x1, y1) # ps) =
     (if x < x1
      then (if x0 = x then y0 else (y1 - y0) / (x1 - x0) * (x - x0) + y0)
      else interp_at x ((x1, y1) # ps))"

definition interp1 :: "real \<Rightarrow> real list \<Rightarrow> real list \<Rightarrow> real" where
  "interp1 x xp fp =
     (if x < hd xp then hd fp
      else if last xp < x then last fp
      else interp_at x (zip xp fp))"

definition interp :: "real list \<Rightarrow> real list \<Rightarrow> real list \<Rightarrow> error + real list" where
  "interp x xp fp =
     (if xp = [] \<or> length xp \<noteq> length fp then Inl ValueError
      else Inr (map (\<lambda>v. interp1 v xp fp) x))"

text \<open>
  \<^verbatim>\<open>
  xfeatures = n.asarray(points)[:,0]
  ... the two loops ...
  constant_background = n.asarray(constants).flatten()
  x_background = n.asarray(xchunks).flatten()
  background = n.interp(xdata, x_background, constant_background)
  return [xdata, background]
  \<close>
  Taking the first column of an empty list of points raises an IndexError. The two
  \<^verbatim>\<open>print\<close> statements are left out.
\<close>

definition inelasticBGSubstract ::
  "fitter \<Rightarrow> real list \<Rightarrow> real list \<Rightarrow> (real \<times> real) list \<Rightarrow> int
     \<Rightarrow> error + (real list \<times> real list)" where
  "inelasticBGSubstract curve_fit xdata ydata points chunk_size =
     (if points = [] then Inl IndexError
      else (let xfeatures = map fst points
            in case chunks xdata ydata chunk_size xfeatures of
                 Inl e \<Rightarrow> Inl e
               | Inr cks \<Rightarrow>
                   (case fit_constants curve_fit cks of
                      Inl e \<Rightarrow> Inl e
                    | Inr constants \<Rightarrow>
                        (let constant_background = concat constants;
                             x_background = concat (map fst cks)
                         in case interp xdata x_background constant_background of
                              Inl e \<Rightarrow> Inl e
                            | Inr background \<Rightarrow> Inr (xdata, background)))))"

section \<open>Properties of float64 rounding\<close>

lemma around_of_int [simp]: "around (of_int k) = of_int k"
  by (simp add: around_def)

lemma around_between:
  assumes "real_of_int k - 1 / 2 < x" and "x < real_of_int k + 1 / 2"
  shows "around x = of_int k"
proof (cases "of_int k \<le> x")
  case True
  then have "\<lfloor>x\<rfloor> = k" using assms by linarith
  then show ?thesis using assms by (simp add: around_def)
next
  case False
  then have "\<lfloor>x\<rfloor> = k - 1" using assms by linarith
  then show ?thesis using assms by (simp add: around_def)
qed

lemma powr_int_nonneg: "0 \<le> d \<Longrightarrow> (2 :: real) powr real_of_int d = of_int (2 ^ nat d)"
  by (simp add: powr_real_of_int)

lemma round64_exact:
  assumes x: "x = of_int m * 2 powr real_of_int q"
    and m: "\<bar>m\<bar> < 2 ^ 53" and q: "- 1074 \<le> q" and bound: "\<bar>x\<bar> < 2 ^ 1024"
  shows "round64 x = Fin x"
proof (cases "x = 0")
  case True
  then show ?thesis by (simp add: round64_def)
next
  case False
  then have m0: "m \<noteq> 0" using x by auto
  have absx: "\<bar>x\<bar> = of_int \<bar>m\<bar> * 2 powr real_of_int q" by (simp add: x abs_mult)
  have "real_of_int \<bar>m\<bar> < 2 ^ 53" using m by (metis of_int_less_numeral_power_cancel_iff)
  then have "\<bar>x\<bar> < 2 ^ 53 * 2 powr real_of_int q" by (simp add: absx)
  also have "\<dots> = 2 powr (53 + real_of_int q)" by (simp add: powr_add powr_numeral [symmetric])
  finally have "log 2 \<bar>x\<bar> < 53 + real_of_int q"
    using False by (simp add: less_powr_iff [symmetric] log_less_iff)
  then have "\<lfloor>log 2 \<bar>x\<bar>\<rfloor> < 53 + q" by linarith
  with q have le: "ulp_exponent x \<le> q" by (simp add: ulp_exponent_def)
  define d where "d = q - ulp_exponent x"
  have d: "0 \<le> d" using le by (simp add: d_def)
  have "x / 2 powr real_of_int (ulp_exponent x) = of_int m * 2 powr real_of_int d"
    by (simp add: x d_def powr_diff)
  also have "\<dots> = of_int (m * 2 ^ nat d)" using d by (simp add: powr_int_nonneg)
  finally have "around (x / 2 powr real_of_int (ulp_exponent x)) = x / 2 powr real_of_int (ulp_exponent x)"
    by (simp only: around_of_int)
  then have "around (x / 2 powr real_of_int (ulp_exponent x)) * 2 powr real_of_int (ulp_exponent x) = x"
    by simp
  with False bound show ?thesis by (simp add: round64_def Let_def)
qed


lemma round64_0 [simp]: "round64 0 = Fin 0"
  by (simp add: round64_def)

lemma round64_of_int:
  assumes "\<bar>n\<bar> < 2 ^ 53"
  shows "round64 (of_int n) = Fin (of_int n)"
proof (rule round64_exact [where m = n and q = 0])
  show "real_of_int n = real_of_int n * 2 powr real_of_int 0" by simp
  show "\<bar>n\<bar> < 2 ^ 53" by fact
  show "- 1074 \<le> (0 :: int)" by simp
  have "real_of_int \<bar>n\<bar> < 2 ^ 53" using assms by (metis of_int_less_numeral_power_cancel_iff)
  also have "\<dots> < (2 :: real) ^ 1024" by (rule power_strict_increasing) simp_all
  finally show "\<bar>real_of_int n\<bar> < 2 ^ 1024" by simp
qed

lemma round64_1 [simp]: "round64 1 = Fin 1"
  using round64_of_int [of 1] by simp


lemma round64_pow2_inverse:
  assumes "k \<le> 1074"
  shows "round64 (1 / 2 ^ k) = Fin (1 / 2 ^ k)"
proof (rule round64_exact [where m = 1 and q = "- int k"])
  show "1 / 2 ^ k = real_of_int 1 * 2 powr real_of_int (- int k)"
    by (simp add: powr_minus powr_realpow inverse_eq_divide)
  show "\<bar>1 :: int\<bar> < 2 ^ 53" by simp
  show "- 1074 \<le> - int k" using assms by simp
  have "1 / 2 ^ k \<le> (1 :: real)" by simp
  also have "\<dots> < 2 ^ 1024" by simp
  finally show "\<bar>1 / 2 ^ k :: real\<bar> < 2 ^ 1024" by simp
qed

lemma round64_half [simp]: "round64 (1 / 2) = Fin (1 / 2)"
  using round64_pow2_inverse [of 1] by simp







section \<open>Properties of the line shapes\<close>









section \<open>Properties of the center refinement\<close>

lemma length_linspace: "length (linspace a b n) = n"
  by (simp add: linspace_def)

lemma linspace_one_nth: "k < s \<Longrightarrow> linspace 1 (real s) s ! k = real k + 1"
  by (cases "s = 1") (auto simp: linspace_def)

text \<open>
  The pixel in row \<open>i\<close> and column \<open>j\<close> (both counted from 0) has the coordinates
  \<open>x = j + 1\<close> and \<open>y = i + 1\<close>. It is sampled when its residual is below 10, whatever
  the sign of the residual, and its \<open>y\<close> coordinate is above 550.
\<close>

lemma circ_where_iff:
  "(i, j) \<in> set (circ_where xg yg rg im scalefactor) \<longleftrightarrow>
     i < length im \<and> j < length im
   \<and> (real j + 1 - xg * scalefactor) ^ 2 + (real i + 1 - yg * scalefactor) ^ 2
       - (rg * scalefactor) ^ 2 < 10
   \<and> real i + 1 > 550"
  by (auto simp: circ_where_def meshgrid_def Let_def linspace_one_nth length_linspace)

lemma circ_where_disc_pixels:
  "circ_where xg yg rg im scalefactor
     = disc_pixels (length im) (xg * scalefactor) (yg * scalefactor) (rg * scalefactor)"
proof -
  let ?s = "length im"
  let ?l = "linspace 1 (real ?s) ?s"
  have row: "concat (map (\<lambda>j. if (map (\<lambda>_. ?l) ?l ! i ! j - xg * scalefactor) ^ 2
                    + (map (\<lambda>v. map (\<lambda>_. v) ?l) ?l ! i ! j - yg * scalefactor) ^ 2
                    - (rg * scalefactor) ^ 2 < 10
                    \<and> 550 < map (\<lambda>v. map (\<lambda>_. v) ?l) ?l ! i ! j then [(i, j)] else []) [0..<?s])
           = concat (map (\<lambda>j. if (real j + 1 - xg * scalefactor) ^ 2
                    + (real i + 1 - yg * scalefactor) ^ 2 - (rg * scalefactor) ^ 2 < 10
                    \<and> 550 < real i + 1 then [(i, j)] else []) [0..<?s])"
    if "i \<in> set [0..<?s]" for i
    using that
    by (intro arg_cong [where f = concat] map_cong refl)
       (simp add: length_linspace linspace_one_nth)
  show ?thesis
    unfolding circ_where_def disc_pixels_def Let_def meshgrid_def prod.case
    by (intro arg_cong [where f = concat] map_cong refl row)
qed

lemma circ_reciprocal_mean:
  "circ xg yg rg im scalefactor
     = reciprocal_mean_intensity im (xg * scalefactor) (yg * scalefactor) (rg * scalefactor)"
  by (simp add: circ_def reciprocal_mean_intensity_def circ_where_disc_pixels)

lemma disc_pixels_iff:
  "(i, j) \<in> set (disc_pixels s xc yc r) \<longleftrightarrow>
     i < s \<and> j < s \<and> (real j + 1 - xc) ^ 2 + (real i + 1 - yc) ^ 2 - r ^ 2 < 10
     \<and> 550 < real i + 1"
  by (auto simp: disc_pixels_def)

lemma reciprocal_mean_intensity_ones:
  assumes "(i, j) \<in> set (disc_pixels n xc yc r)"
  shows "reciprocal_mean_intensity (replicate n (replicate n 1)) xc yc r = Some 1"
proof -
  let ?px = "disc_pixels n xc yc r"
  have "map (\<lambda>(i, j). replicate n (replicate n (1 :: real)) ! i ! j) ?px = map (\<lambda>_. 1) ?px"
    by (rule map_cong) (auto simp: disc_pixels_iff)
  then have vals: "map (\<lambda>(i, j). replicate n (replicate n (1 :: real)) ! i ! j) ?px
                   = replicate (length ?px) 1"
    by (simp add: map_replicate_const)
  have "?px \<noteq> []" using assms by auto
  then have "real (length ?px) \<noteq> 0" by simp
  then show ?thesis
    by (simp add: reciprocal_mean_intensity_def vals mean_def np_divide_def sum_list_replicate)
qed

lemma reciprocal_mean_intensity_empty:
  "disc_pixels (length im) xc yc r = [] \<Longrightarrow> reciprocal_mean_intensity im xc yc r = None"
  by (simp add: reciprocal_mean_intensity_def mean_def np_divide_def)

lemma scaled_guess_ints:
  "scaled_guess (PyInt x) (PyInt y) (PyInt r) (PyInt s)
     = Some (of_int (x div s), of_int (y div s), of_int (r div s))"
  by (simp add: scaled_guess_def)

lemma scaled_guess_true_division:
  assumes "\<not> (is_int xg \<and> is_int yg \<and> is_int rg \<and> is_int scalefactor)"
    and "float_of scalefactor \<noteq> 0"
  shows "scaled_guess xg yg rg scalefactor
           = Some (float_of xg / float_of scalefactor, float_of yg / float_of scalefactor,
                   float_of rg / float_of scalefactor)"
  using assms by (auto simp: scaled_guess_def np_divide_def)

lemma fCenter_unfold:
  "fCenter minimize xg yg rg im scalefactor =
     (case scaled_guess xg yg rg scalefactor of
        Some start \<Rightarrow>
          (case minimize (c1 im) start of
             (x, y, r) \<Rightarrow> (Some (x * float_of scalefactor), Some (y * float_of scalefactor), rg))
      | None \<Rightarrow> (None, None, rg))"
  by (simp add: fCenter_def split: option.splits prod.splits)

text \<open>
  A 551 by 551 image of ones has a single row with \<open>y > 550\<close>, the last one.
\<close>

lemma no_pixel_far_from_last_row:
  "disc_pixels 551 0 540 0 = []"
proof -
  have "\<not> ((real j + 1 - 0) ^ 2 + (real i + 1 - 540) ^ 2 - 0 ^ 2 < (10 :: real)
           \<and> 550 < real i + 1)" for i j :: nat
  proof
    assume a: "(real j + 1 - 0) ^ 2 + (real i + 1 - 540) ^ 2 - 0 ^ 2 < (10 :: real)
               \<and> 550 < real i + 1"
    then have "10 < real i + 1 - 540" by simp
    then have "10 * 10 < (real i + 1 - 540) * (real i + 1 - 540)"
      by (intro mult_strict_mono) simp_all
    then have "100 < (real i + 1 - 540) ^ 2" by (simp add: power2_eq_square)
    moreover have "0 \<le> (real j + 1 - 0) ^ 2" by (rule zero_le_power2)
    moreover from a have "(real j + 1 - 0) ^ 2 + (real i + 1 - 540) ^ 2 - 0 < (10 :: real)"
      by (simp only: zero_power2)
    ultimately show False by linarith
  qed
  then have "p \<notin> set (disc_pixels 551 0 540 0)" for p
    by (cases p) (simp only: disc_pixels_iff, blast)
  then show ?thesis by (meson last_in_set)
qed

lemma pixel_on_last_row: "(550, 9) \<in> set (disc_pixels 551 10 551 19)"
  by (simp add: disc_pixels_iff)

lemma pixel_on_last_row_ints: "(550, 19) \<in> set (disc_pixels 551 20 560 20)"
  by (simp add: disc_pixels_iff)

text \<open>
  Claim C2. Whatever the image, the guess, the scale factor and the optimizer, the
  radius that \<^verbatim>\<open>fCenter\<close> returns is the radius guess \<open>rg\<close> itself; the two center
  coordinates are those of the optimizer's result, multiplied by the scale factor. The
  last part says this for a guess and a scale factor given as floats.
\<close>

theorem fCenter_radius_is_guess:
  "snd (snd (fCenter minimize xg yg rg im scalefactor)) = rg
   \<and> (\<forall>start. scaled_guess xg yg rg scalefactor = Some start \<longrightarrow>
        fst (fCenter minimize xg yg rg im scalefactor)
          = Some (fst (minimize (c1 im) start) * float_of scalefactor)
      \<and> fst (snd (fCenter minimize xg yg rg im scalefactor))
          = Some (fst (snd (minimize (c1 im) start)) * float_of scalefactor))
   \<and> (sf \<noteq> 0 \<longrightarrow>
        fst (fCenter minimize (PyFloat a) (PyFloat b) (PyFloat c) im (PyFloat sf))
          = Some (fst (minimize (c1 im) (a / sf, b / sf, c / sf)) * sf)
      \<and> fst (snd (fCenter minimize (PyFloat a) (PyFloat b) (PyFloat c) im (PyFloat sf)))
          = Some (fst (snd (minimize (c1 im) (a / sf, b / sf, c / sf))) * sf)
      \<and> snd (snd (fCenter minimize (PyFloat a) (PyFloat b) (PyFloat c) im (PyFloat sf)))
          = PyFloat c)"
proof -
  have radius: "snd (snd (fCenter minimize xg yg rg im scalefactor)) = rg"
    for minimize xg yg rg scalefactor
    by (simp add: fCenter_unfold split: option.splits prod.splits)
  have xy: "fst (fCenter minimize xg yg rg im scalefactor)
          = Some (fst (minimize (c1 im) start) * float_of scalefactor)
      \<and> fst (snd (fCenter minimize xg yg rg im scalefactor))
          = Some (fst (snd (minimize (c1 im) start)) * float_of scalefactor)"
    if "scaled_guess xg yg rg scalefactor = Some start" for start xg yg rg scalefactor
    using that by (simp add: fCenter_unfold split: prod.splits)
  have floats: "scaled_guess (PyFloat a) (PyFloat b) (PyFloat c) (PyFloat sf)
                  = Some (a / sf, b / sf, c / sf)" if "sf \<noteq> 0"
    using that scaled_guess_true_division [of "PyFloat a" "PyFloat b" "PyFloat c" "PyFloat sf"]
    by (simp add: float_of_def)
  show ?thesis
    using radius xy [OF floats] xy by (auto simp: float_of_def)
qed

theorem fCenter_radius_is_guess_witness:
  "scaled_guess (PyInt 5) (PyInt 6) (PyInt 7) (PyInt 20) = Some (0, 0, 0)
   \<and> (20 :: real) \<noteq> 0
   \<and> fCenter (\<lambda>f x0. (1, 2, 3)) (PyInt 5) (PyInt 6) (PyInt 7) [[1]] (PyInt 20)
       = (Some 20, Some 40, PyInt 7)
   \<and> fCenter (\<lambda>f x0. (1, 2, 3)) (PyFloat 5) (PyFloat 6) (PyFloat 7) [[1]] (PyFloat 20)
       = (Some 20, Some 40, PyFloat 7)"
  using fCenter_radius_is_guess [of "\<lambda>f x0. (1, 2, 3)" "PyInt 5" "PyInt 6" "PyInt 7" "[[1]]"
      "PyInt 20" 20 5 6 7]
  by (simp add: prod_eq_iff scaled_guess_ints float_of_def fCenter_unfold
      scaled_guess_def np_divide_def)

text \<open>
  Claim C10, as stated, fails on the code. The guess is the three integers 10, 551 and
  19 and the scale factor is the default, the integer 20. The quotient is the floor
  division of Python 2, so the optimizer starts at \<open>(0, 27, 0)\<close> and the objective there
  is the cost of the circle \<open>20 * (0, 27, 0) = (0, 540, 0)\<close>: on the 551 by 551 image of
  ones no pixel is sampled and the cost is \<^verbatim>\<open>nan\<close>. The claim gives the cost of the
  circle \<open>(20 / 20) * (10, 551, 19)\<close>, which is 1.
\<close>

theorem fCenter_integer_guess_is_floored:
  "scaled_guess (PyInt 10) (PyInt 551) (PyInt 19) (PyInt 20) = Some (0, 27, 0)
   \<and> c1 (replicate 551 (replicate 551 1)) (0, 27, 0) = None
   \<and> reciprocal_mean_intensity (replicate 551 (replicate 551 1))
        (20 / 20 * 10) (20 / 20 * 551) (20 / 20 * 19) = Some 1"
proof -
  have "reciprocal_mean_intensity (replicate 551 (replicate 551 1)) (0 * 20) (27 * 20) (0 * 20)
        = None"
    by (rule reciprocal_mean_intensity_empty) (simp add: no_pixel_far_from_last_row)
  then have "c1 (replicate 551 (replicate 551 1)) (0, 27, 0) = None"
    by (simp only: c1_def prod.case circ_reciprocal_mean)
  moreover have "reciprocal_mean_intensity (replicate 551 (replicate 551 1)) 10 551 19 = Some 1"
    using pixel_on_last_row by (rule reciprocal_mean_intensity_ones)
  ultimately show ?thesis by (simp add: scaled_guess_ints)
qed

text \<open>
  Claim C10, amended. The objective that \<^verbatim>\<open>fCenter\<close> hands to the optimizer multiplies
  the trial coordinates by 20, the default of \<^verbatim>\<open>circ\<close>, and not by the scale factor of
  \<^verbatim>\<open>fCenter\<close>: its value at a point is the reciprocal of the mean intensity sampled for
  the circle of 20 times that point. With a float among the guess and the scale factor,
  and a scale factor that is not zero, the optimizer starts at the guess divided by the
  scale factor, and the objective there is the cost of the circle
  \<open>(20 / scalefactor) * (xg, yg, rg)\<close>. For an integer guess and an integer scale factor
  the optimizer starts at the floor of the quotients, and the objective there is the
  cost of the circle of 20 times these floors. Dividing by the scale factor and then
  multiplying by 20 gives every real coordinate back only if the scale factor is 20.
\<close>

theorem fCenter_objective_fixed_scale:
  "fCenter minimize xg yg rg im scalefactor =
     (case scaled_guess xg yg rg scalefactor of
        Some start \<Rightarrow>
          (case minimize (c1 im) start of
             (x, y, r) \<Rightarrow> (Some (x * float_of scalefactor), Some (y * float_of scalefactor), rg))
      | None \<Rightarrow> (None, None, rg))
   \<and> c1 im (x0, x1, x2) = reciprocal_mean_intensity im (x0 * 20) (x1 * 20) (x2 * 20)
   \<and> (\<not> (is_int xg \<and> is_int yg \<and> is_int rg \<and> is_int scalefactor)
        \<and> float_of scalefactor \<noteq> 0 \<longrightarrow>
        scaled_guess xg yg rg scalefactor
          = Some (float_of xg / float_of scalefactor, float_of yg / float_of scalefactor,
                  float_of rg / float_of scalefactor)
      \<and> c1 im (float_of xg / float_of scalefactor, float_of yg / float_of scalefactor,
               float_of rg / float_of scalefactor)
          = reciprocal_mean_intensity im (20 / float_of scalefactor * float_of xg)
              (20 / float_of scalefactor * float_of yg)
              (20 / float_of scalefactor * float_of rg))
   \<and> scaled_guess (PyInt i) (PyInt j) (PyInt k) (PyInt s)
       = Some (of_int (i div s), of_int (j div s), of_int (k div s))
   \<and> c1 im (of_int (i div s), of_int (j div s), of_int (k div s))
       = reciprocal_mean_intensity im (20 * of_int (i div s)) (20 * of_int (j div s))
           (20 * of_int (k div s))
   \<and> ((\<forall>v :: real. 20 * (v / sf) = v) \<longleftrightarrow> sf = 20)"
proof -
  have fixed: "c1 im (a, b, c) = reciprocal_mean_intensity im (a * 20) (b * 20) (c * 20)"
    for a b c
    by (simp add: c1_def circ_reciprocal_mean)
  have trip: "(\<forall>v :: real. 20 * (v / sf) = v) \<longleftrightarrow> sf = 20"
  proof
    assume "\<forall>v :: real. 20 * (v / sf) = v"
    then have "20 * (1 / sf) = (1 :: real)" by blast
    then show "sf = 20" by (cases "sf = 0") (simp_all add: field_simps)
  qed simp
  have true_div: "c1 im (float_of xg / float_of scalefactor, float_of yg / float_of scalefactor,
               float_of rg / float_of scalefactor)
          = reciprocal_mean_intensity im (20 / float_of scalefactor * float_of xg)
              (20 / float_of scalefactor * float_of yg)
              (20 / float_of scalefactor * float_of rg)"
    by (simp add: fixed mult.commute)
  have floor_div: "c1 im (of_int (i div s), of_int (j div s), of_int (k div s))
       = reciprocal_mean_intensity im (20 * of_int (i div s)) (20 * of_int (j div s))
           (20 * of_int (k div s))"
    by (simp add: fixed mult.commute)
  show ?thesis
    using fCenter_unfold [of minimize xg yg rg im scalefactor] fixed [of x0 x1 x2]
      scaled_guess_true_division [of xg yg rg scalefactor] true_div
      scaled_guess_ints [of i j k s] floor_div trip
    by blast
qed

theorem fCenter_objective_fixed_scale_witness:
  "\<not> (is_int (PyFloat 5) \<and> is_int (PyFloat (551 / 2)) \<and> is_int (PyFloat (19 / 2))
       \<and> is_int (PyFloat 10))
   \<and> float_of (PyFloat 10) \<noteq> 0
   \<and> scaled_guess (PyFloat 5) (PyFloat (551 / 2)) (PyFloat (19 / 2)) (PyFloat 10)
       = Some (1 / 2, 551 / 20, 19 / 20)
   \<and> c1 (replicate 551 (replicate 551 1)) (1 / 2, 551 / 20, 19 / 20) = Some 1
   \<and> scaled_guess (PyInt 20) (PyInt 560) (PyInt 20) (PyInt 20) = Some (1, 28, 1)
   \<and> c1 (replicate 551 (replicate 551 1)) (1, 28, 1) = Some 1
   \<and> \<not> (\<forall>v :: real. 20 * (v / 10) = v)"
  using fCenter_objective_fixed_scale [of "\<lambda>f x0. x0" "PyFloat 5" "PyFloat (551 / 2)"
      "PyFloat (19 / 2)" "replicate 551 (replicate 551 1)" "PyFloat 10" 0 0 0 20 560 20 20 10]
    reciprocal_mean_intensity_ones [OF pixel_on_last_row]
    reciprocal_mean_intensity_ones [OF pixel_on_last_row_ints]
  by (simp add: float_of_def)

text \<open>
  Claim C3, evaluated on the code. On a 600 by 600 image, for the trial triple
  \<open>(15, 30, 5)\<close>, that is the circle of radius 100 around \<open>x = 300\<close>, \<open>y = 600\<close>, the
  cost function samples the pixel in row 599 and column 299. That pixel is the center of
  the circle: its squared distance to the center, 0, differs from the squared radius,
  10000, by far more than 10. The test of the source is \<^verbatim>\<open>residual < 10\<close> on the signed
  residual, so the whole disc inside the circle is sampled, not only the contour.
\<close>

theorem circ_samples_disc_interior:
  "(599, 299) \<in> set (circ_where 15 30 5 (replicate 600 (replicate 600 1)) 20)
   \<and> \<not> \<bar>(real 299 + 1 - 15 * 20) ^ 2 + (real 599 + 1 - 30 * 20) ^ 2 - (5 * 20) ^ 2\<bar> < (10 :: real)"
  by (simp add: circ_where_iff)

section \<open>Properties of the radial average\<close>



lemma length_add_at [simp]: "length (add_at ind v a) = length a"
  unfolding add_at_def by (induction ind arbitrary: a) auto

lemma add_at_nth:
  "distinct ind \<Longrightarrow> k < length a \<Longrightarrow>
   add_at ind v a ! k = (if k \<in> set ind then a ! k + v else a ! k)"
  unfolding add_at_def
proof (induction ind arbitrary: a)
  case Nil
  then show ?case by simp
next
  case (Cons m ind)
  have step: "fold (\<lambda>k b. b[k := b ! k + v]) ind (a[m := a ! m + v]) ! k =
      (if k \<in> set ind then a[m := a ! m + v] ! k + v else a[m := a ! m + v] ! k)"
    using Cons.prems by (intro Cons.IH) auto
  show ?case
  proof (cases "k = m")
    case True
    with Cons.prems step show ?thesis by auto
  next
    case False
    with Cons.prems step show ?thesis by auto
  qed
qed

lemma distinct_where_eq: "distinct (where_eq u r)"
  by (simp add: where_eq_def)

lemma set_where_eq: "k \<in> set (where_eq u r) \<longleftrightarrow> k < length u \<and> u ! k = r"
  by (auto simp: where_eq_def)

lemma bin_values_Cons:
  "bin_values center R (((i, j), v) # pixels) r =
     (if \<not> real i < fst center \<and> R ! i ! j = r then v # bin_values center R pixels r
      else bin_values center R pixels r)"
  by (simp add: bin_values_def)

lemma fold_bin_step:
  assumes "length acc = length u" and "length cnt = length u"
  shows "length (fst (fold (bin_step center R u) pixels (acc, cnt))) = length u
       \<and> length (snd (fold (bin_step center R u) pixels (acc, cnt))) = length u
       \<and> (\<forall>k < length u.
            fst (fold (bin_step center R u) pixels (acc, cnt)) ! k
              = acc ! k + sum_list (bin_values center R pixels (u ! k))
          \<and> snd (fold (bin_step center R u) pixels (acc, cnt)) ! k
              = cnt ! k + real (length (bin_values center R pixels (u ! k))))"
  using assms
proof (induction pixels arbitrary: acc cnt)
  case Nil
  then show ?case by (simp add: bin_values_def)
next
  case (Cons p pixels)
  obtain i j v where p: "p = ((i, j), v)" by (metis prod.exhaust)
  show ?case
  proof (cases "real i < fst center")
    case True
    then have skip: "bin_step center R u ((i, j), v) (acc, cnt) = (acc, cnt)"
      by (simp add: bin_step_def)
    show ?thesis
      using Cons.IH [OF Cons.prems] True by (simp add: p skip bin_values_Cons)
  next
    case False
    let ?ind = "where_eq u (R ! i ! j)"
    have step: "bin_step center R u ((i, j), v) (acc, cnt) = (add_at ?ind v acc, add_at ?ind 1 cnt)"
      using False by (simp add: bin_step_def Let_def)
    have IH: "length (fst (fold (bin_step center R u) pixels (add_at ?ind v acc, add_at ?ind 1 cnt))) = length u
       \<and> length (snd (fold (bin_step center R u) pixels (add_at ?ind v acc, add_at ?ind 1 cnt))) = length u
       \<and> (\<forall>k < length u.
            fst (fold (bin_step center R u) pixels (add_at ?ind v acc, add_at ?ind 1 cnt)) ! k
              = add_at ?ind v acc ! k + sum_list (bin_values center R pixels (u ! k))
          \<and> snd (fold (bin_step center R u) pixels (add_at ?ind v acc, add_at ?ind 1 cnt)) ! k
              = add_at ?ind 1 cnt ! k + real (length (bin_values center R pixels (u ! k))))"
      using Cons.prems by (intro Cons.IH) simp_all
    have nth: "add_at ?ind w a ! k = (if u ! k = R ! i ! j then a ! k + w else a ! k)"
      if "k < length u" "length a = length u" for k w a
      using that by (simp add: add_at_nth distinct_where_eq set_where_eq)
    show ?thesis
      using IH False Cons.prems
      by (simp add: step p bin_values_Cons nth)
  qed
qed


lemma radialAverage_bins:
  assumes "k < length (fst (radialAverage img center))"
  shows "snd (radialAverage img center) ! k =
           Some (sum_list (contributions img center (fst (radialAverage img center) ! k))
                 / (1 + real (length (contributions img center (fst (radialAverage img center) ! k)))))"
    and "length (snd (radialAverage img center)) = length (fst (radialAverage img center))"
proof -
  let ?R = "radial_positions img center"
  let ?u = "unique (map around (concat ?R))"
  let ?res = "fold (bin_step center ?R ?u) (ndenumerate img)
                (replicate (length ?u) 0, replicate (length ?u) 1)"
  have inv: "length (fst ?res) = length ?u \<and> length (snd ?res) = length ?u
       \<and> (\<forall>k < length ?u.
            fst ?res ! k = replicate (length ?u) 0 ! k
                           + sum_list (bin_values center ?R (ndenumerate img) (?u ! k))
          \<and> snd ?res ! k = replicate (length ?u) 1 ! k
                           + real (length (bin_values center ?R (ndenumerate img) (?u ! k))))"
    by (rule fold_bin_step) simp_all
  have ra: "radialAverage img center = (?u, map2 np_divide (fst ?res) (snd ?res))"
    by (simp add: radialAverage_def Let_def split: prod.splits)
  from assms have k: "k < length ?u" by (simp add: ra)
  have pos: "1 + real (length (bin_values center ?R (ndenumerate img) (?u ! k))) \<noteq> 0"
    by linarith
  show "snd (radialAverage img center) ! k =
           Some (sum_list (contributions img center (fst (radialAverage img center) ! k))
                 / (1 + real (length (contributions img center (fst (radialAverage img center) ! k)))))"
    using inv k pos by (simp add: ra contributions_def np_divide_def)
  show "length (snd (radialAverage img center)) = length (fst (radialAverage img center))"
    using inv by (simp add: ra)
qed








subsection \<open>A worked example\<close>

lemma around_numeral [simp]: "around (numeral n) = numeral n" "around 0 = 0" "around 1 = 1"
  by (simp_all add: around_def)

lemma around_sqrt:
  assumes "0 < k" and "(2 * real_of_int k - 1) ^ 2 < 4 * q"
    and "4 * q < (2 * real_of_int k + 1) ^ 2"
  shows "around (sqrt q) = of_int k"
proof -
  have "sqrt ((2 * real_of_int k - 1) ^ 2) < sqrt (4 * q)"
    using assms(2) by (simp only: real_sqrt_less_iff)
  moreover have "sqrt (4 * q) < sqrt ((2 * real_of_int k + 1) ^ 2)"
    using assms(3) by (simp only: real_sqrt_less_iff)
  moreover have "sqrt (4 * q) = 2 * sqrt q" by (simp add: real_sqrt_mult)
  ultimately have "2 * real_of_int k - 1 < 2 * sqrt q" "2 * sqrt q < 2 * real_of_int k + 1"
    using assms(1) by auto
  then show ?thesis by (intro around_between) auto
qed

lemma around_sqrt_8: "around (sqrt 8) = 3"
  using around_sqrt [of 3 8] by simp

lemma around_sqrt_4: "around (sqrt 4) = 2"
  using around_sqrt [of 2 4] by simp

lemma upt_0_2: "[0..<2] = [0, Suc 0]"
  by (simp add: numeral_2_eq_2)

lemma upt_0_3: "[0..<3] = [0, 1, 2]"
  by (simp add: numeral_3_eq_3 numeral_2_eq_2)

lemma linspace_0_2_2: "linspace 0 2 (Suc (Suc 0)) = [0, 2]"
  by (simp add: linspace_def)

text \<open>
  The 2 by 2 image with the rows \<open>[1, 2]\<close> and \<open>[3, 4]\<close> and the center \<open>x = 0\<close>,
  \<open>y = 2\<close>. The grid coordinates of the two rows and of the two columns are 0 and 2, so
  the center is the pixel in row 1 and column 0.
\<close>

lemma radial_positions_two_by_two:
  "radial_positions [[1, 2], [3, 4]] (0, 2) = [[2, 3], [0, 2]]"
  by (simp add: radial_positions_def shape1_def linspace_0_2_2 meshgrid_def
      around_sqrt_8 around_sqrt_4)

lemma ndenumerate_two_by_two:
  "ndenumerate [[1, 2], [3, 4]] = [((0, 0), 1), ((0, 1), 2), ((1, 0), 3), ((1, 1), 4)]"
  by (simp add: ndenumerate_def shape1_def upt_0_2)

lemma radialAverage_two_by_two:
  "radialAverage [[1, 2], [3, 4]] (0, 2) = ([0, 2, 3], [Some (3 / 2), Some (5 / 3), Some 1])"
  by (simp add: radialAverage_def radial_positions_two_by_two ndenumerate_two_by_two
      unique_def bin_step_def where_eq_def add_at_def np_divide_def upt_0_3)

lemma square_two_by_two: "square [[1, 2], [3, 4]]"
  by (simp add: square_def)

subsection \<open>The claims on the radial average\<close>

text \<open>
  Claim C4, evaluated on the code. For the 2 by 2 image above and the center \<open>x = 0\<close>,
  \<open>y = 2\<close>, the pixel at radius 0 is in row 1: that is the row of the center, and row 0
  is above it. The loop skips a pixel when its row index is below \<^verbatim>\<open>center[0]\<close>, which
  is the \<open>x\<close> coordinate (the column) of the center, here 0. So no row is skipped and
  the two pixels of row 0 are accumulated: the value 1 in the bin of radius 2 and the
  value 2 in the bin of radius 3.
\<close>

theorem radialAverage_top_row_contributes:
  "radial_positions [[1, 2], [3, 4]] (0, 2) ! 1 ! 0 = 0
   \<and> contributions [[1, 2], [3, 4]] (0, 2) 2 = [1, 4]
   \<and> contributions [[1, 2], [3, 4]] (0, 2) 3 = [2]
   \<and> radialAverage [[1, 2], [3, 4]] (0, 2) = ([0, 2, 3], [Some (3 / 2), Some (5 / 3), Some 1])"
  by (simp add: radialAverage_two_by_two contributions_def bin_values_def
      radial_positions_two_by_two ndenumerate_two_by_two)

text \<open>
  Claim C5. For an N by N image, the intensity returned for a radius bin is the sum of
  the pixel values accumulated in that bin divided by one plus their number: the count
  starts at 1, so the divisor is never zero and every bin has a value, also a bin in
  which nothing is accumulated.
\<close>

theorem radialAverage_bin_mean:
  assumes "square img" and "k < length (fst (radialAverage img center))"
  shows "snd (radialAverage img center) ! k =
           Some (sum_list (contributions img center (fst (radialAverage img center) ! k))
                 / (1 + real (length (contributions img center
                                        (fst (radialAverage img center) ! k)))))"
  using assms(2) by (rule radialAverage_bins(1))

theorem radialAverage_bin_mean_witness:
  "square [[1, 2], [3, 4]] \<and> 1 < length (fst (radialAverage [[1, 2], [3, 4]] (0, 2)))
   \<and> snd (radialAverage [[1, 2], [3, 4]] (0, 2)) ! 1 = Some ((1 + 4) / (1 + 2))"
  using radialAverage_bin_mean [of "[[1, 2], [3, 4]]" 1 "(0, 2)"]
  by (simp add: square_two_by_two radialAverage_two_by_two)



subsection \<open>The call in the store\<close>










section \<open>Properties of the background subtraction\<close>

subsection \<open>Extracting the chunks\<close>

lemma argmin_less: "xs \<noteq> [] \<Longrightarrow> argmin xs < length xs"
  by (induction xs rule: argmin.induct) (auto simp: Let_def)

lemma nearest_less: "xdata \<noteq> [] \<Longrightarrow> nearest xdata feature < length xdata"
  using argmin_less [of "map (\<lambda>x. \<bar>x - feature\<bar>) xdata"] by (simp add: nearest_def)

lemma window_indices_valid:
  assumes "0 \<le> k" and "i < length a"
  shows "list_all (\<lambda>q. - int (length a) \<le> q \<and> q < int (length a))
           (arange (int i - k) (int i + k + 1))
         \<longleftrightarrow> int i + k < int (length a)"
proof
  assume valid: "list_all (\<lambda>q. - int (length a) \<le> q \<and> q < int (length a))
           (arange (int i - k) (int i + k + 1))"
  have "int i + k \<in> set (arange (int i - k) (int i + k + 1))"
  proof -
    have "int i + k = (int i - k) + int (nat (2 * k))" using assms(1) by simp
    moreover have "nat (2 * k) < nat (int i + k + 1 - (int i - k))" using assms(1) by simp
    ultimately show ?thesis unfolding arange_def by (metis (no_types, lifting) atLeastLessThan_iff image_eqI le0 set_map set_upt)
  qed
  with valid show "int i + k < int (length a)" by (auto simp: list_all_iff)
next
  assume "int i + k < int (length a)"
  with assms show "list_all (\<lambda>q. - int (length a) \<le> q \<and> q < int (length a))
           (arange (int i - k) (int i + k + 1))"
    by (auto simp: list_all_iff arange_def)
qed

lemma take_indices_window:
  assumes "0 \<le> k" and "i < length a"
  shows "take_indices a (arange (int i - k) (int i + k + 1)) = Inl IndexError
         \<longleftrightarrow> int (length a) \<le> int i + k"
    and "int i + k < int (length a) \<Longrightarrow>
         \<exists>chunk. take_indices a (arange (int i - k) (int i + k + 1)) = Inr chunk"
  using window_indices_valid [OF assms] by (auto simp: take_indices_def Let_def)

lemma chunks_IndexError:
  assumes "xdata \<noteq> []" and "length ydata = length xdata" and "0 \<le> k"
  shows "(chunks xdata ydata k features = Inl IndexError
            \<longleftrightarrow> (\<exists>f \<in> set features. int (length xdata) \<le> int (nearest xdata f) + k))
       \<and> (\<forall>e. chunks xdata ydata k features = Inl e \<longrightarrow> e = IndexError)"
proof (induction features)
  case Nil
  then show ?case by simp
next
  case (Cons f features)
  let ?i = "nearest xdata f"
  have i: "?i < length xdata" "?i < length ydata"
    using assms by (simp_all add: nearest_less)
  show ?case
  proof (cases "int (length xdata) \<le> int ?i + k")
    case True
    then have "take_indices xdata (arange (int ?i - k) (int ?i + k + 1)) = Inl IndexError"
      using take_indices_window(1) [OF assms(3) i(1)] by simp
    with True assms(1) show ?thesis by (simp add: nearest_index_def)
  next
    case False
    then obtain xchunk ychunk where
      "take_indices xdata (arange (int ?i - k) (int ?i + k + 1)) = Inr xchunk"
      "take_indices ydata (arange (int ?i - k) (int ?i + k + 1)) = Inr ychunk"
      using take_indices_window(2) [OF assms(3) i(1)] take_indices_window(2) [OF assms(3) i(2)]
        assms(2) by auto
    with False assms(1) Cons.IH show ?thesis
      by (auto simp: nearest_index_def split: sum.splits)
  qed
qed

lemma fit_constants_error:
  "fit_constants curve_fit cks = Inl e \<Longrightarrow> e \<noteq> IndexError"
  by (induction curve_fit cks rule: fit_constants.induct)
     (auto split: if_splits option.splits sum.splits prod.splits)

lemma interp_error: "interp x xp fp = Inl e \<Longrightarrow> e \<noteq> IndexError"
  by (auto simp: interp_def split: if_splits)

lemma take_indices_in_range:
  fixes k i :: nat
  assumes "k \<le> i" and "i + k < length a"
  shows "take_indices a (arange (int i - int k) (int i + int k + 1))
         = Inr (take (2 * k + 1) (drop (i - k) a))"
proof -
  have valid: "list_all (\<lambda>q. - int (length a) \<le> q \<and> q < int (length a))
                 (arange (int i - int k) (int i + int k + 1))"
    using assms by (auto simp: list_all_iff arange_def)
  have n: "nat (int i + int k + 1 - (int i - int k)) = 2 * k + 1" by simp
  have "map (\<lambda>q. a ! nat (if q < 0 then q + int (length a) else q))
          (arange (int i - int k) (int i + int k + 1))
        = take (2 * k + 1) (drop (i - k) a)"
  proof (rule nth_equalityI)
    show "length (map (\<lambda>q. a ! nat (if q < 0 then q + int (length a) else q))
          (arange (int i - int k) (int i + int k + 1))) = length (take (2 * k + 1) (drop (i - k) a))"
      using assms by (simp add: arange_def)
  next
    fix d
    assume "d < length (map (\<lambda>q. a ! nat (if q < 0 then q + int (length a) else q))
          (arange (int i - int k) (int i + int k + 1)))"
    then have d: "d < 2 * k + 1" by (simp add: arange_def)
    have "nat (int i - int k + int d) = i - k + d" using assms(1) by simp
    with d assms show "map (\<lambda>q. a ! nat (if q < 0 then q + int (length a) else q))
          (arange (int i - int k) (int i + int k + 1)) ! d = take (2 * k + 1) (drop (i - k) a) ! d"
      by (simp add: arange_def n)
  qed
  with valid show ?thesis by (simp add: take_indices_def Let_def)
qed

lemma split_three:
  assumes "a \<le> b"
  shows "xs = take a xs @ take (b - a) (drop a xs) @ drop b xs"
proof -
  have "drop (b - a) (drop a xs) = drop b xs" using assms by simp
  then have "take (b - a) (drop a xs) @ drop b xs = drop a xs"
    using append_take_drop_id [of "b - a" "drop a xs"] by simp
  then show ?thesis by simp
qed

lemma split_windows:
  fixes s1 s2 n :: nat
  assumes "s1 + n \<le> s2"
  shows "xs = take s1 xs @ take n (drop s1 xs) @ take (s2 - (s1 + n)) (drop (s1 + n) xs)
              @ take n (drop s2 xs) @ drop (s2 + n) xs"
proof -
  have 1: "xs = take s1 xs @ take n (drop s1 xs) @ drop (s1 + n) xs"
    using split_three [of s1 "s1 + n" xs] by simp
  have 2: "drop (s1 + n) xs = take (s2 - (s1 + n)) (drop (s1 + n) xs) @ drop s2 xs"
    using assms by (metis append_take_drop_id drop_drop le_add_diff_inverse2)
  have 3: "drop s2 xs = take n (drop s2 xs) @ drop (s2 + n) xs"
    by (metis add.commute append_take_drop_id drop_drop)
  from 1 2 3 show ?thesis by metis
qed

subsection \<open>Interpolating two constant runs\<close>

lemma interp_at_const: "xs \<noteq> [] \<Longrightarrow> interp_at x (map (\<lambda>v. (v, c)) xs) = c"
proof (induction xs rule: induct_list012)
  case (3 a b r)
  then show ?case by simp
qed simp_all

lemma interp_at_skip:
  "\<forall>p \<in> set ps. fst p \<le> x \<Longrightarrow> fst q \<le> x \<Longrightarrow>
   interp_at x (ps @ q # qs) = interp_at x (q # qs)"
proof (induction ps rule: induct_list012)
  case 1
  then show ?case by simp
next
  case (2 p)
  then show ?case by (cases p; cases q) simp
next
  case (3 p p' ps)
  then show ?case by (cases p; cases p') simp
qed

lemma interp_at_first_run:
  "x \<in> set w1 \<Longrightarrow> sorted_wrt (<) (w1 @ w2) \<Longrightarrow> w2 \<noteq> [] \<Longrightarrow>
   interp_at x (map (\<lambda>v. (v, ca)) w1 @ map (\<lambda>v. (v, cb)) w2) = ca"
proof (induction w1 rule: induct_list012)
  case 1
  then show ?case by simp
next
  case (2 a)
  then obtain b r where "w2 = b # r" by (cases w2) auto
  with 2 show ?case by simp
next
  case (3 a a' r)
  show ?case
  proof (cases "x < a'")
    case True
    then show ?thesis by simp
  next
    case False
    with 3 have "x \<in> set (a' # r)" by auto
    moreover from "3.prems" have "sorted_wrt (<) ((a' # r) @ w2)" by simp
    ultimately have "interp_at x (map (\<lambda>v. (v, ca)) (a' # r) @ map (\<lambda>v. (v, cb)) w2) = ca"
      using "3.prems"(3) by (intro "3.IH"(2))
    with False show ?thesis by simp
  qed
qed

lemma interp_at_ramp:
  assumes "w1 \<noteq> []" and "w2 \<noteq> []" and "\<forall>v \<in> set w1. v \<le> x"
    and "last w1 < x" and "x < hd w2"
  shows "interp_at x (map (\<lambda>v. (v, ca)) w1 @ map (\<lambda>v. (v, cb)) w2)
         = (cb - ca) / (hd w2 - last w1) * (x - last w1) + ca"
proof -
  obtain b r where w2: "w2 = b # r" using assms(2) by (cases w2) auto
  have w1: "w1 = butlast w1 @ [last w1]" using assms(1) by simp
  have "map (\<lambda>v. (v, ca)) w1 @ map (\<lambda>v. (v, cb)) w2
        = map (\<lambda>v. (v, ca)) (butlast w1) @ (last w1, ca) # (b, cb) # map (\<lambda>v. (v, cb)) r"
    by (subst w1) (simp add: w2)
  moreover have "interp_at x (map (\<lambda>v. (v, ca)) (butlast w1) @ (last w1, ca) # (b, cb) # map (\<lambda>v. (v, cb)) r)
        = interp_at x ((last w1, ca) # (b, cb) # map (\<lambda>v. (v, cb)) r)"
    using assms(3,4) by (intro interp_at_skip) (auto dest: in_set_butlastD)
  ultimately show ?thesis using assms(4,5) by (simp add: w2)
qed

lemma interp_at_second_run:
  assumes "w2 \<noteq> []" and "\<forall>v \<in> set w1. v \<le> x" and "hd w2 \<le> x"
  shows "interp_at x (map (\<lambda>v. (v, ca)) w1 @ map (\<lambda>v. (v, cb)) w2) = cb"
proof -
  obtain b r where w2: "w2 = b # r" using assms(1) by (cases w2) auto
  have "interp_at x (map (\<lambda>v. (v, ca)) w1 @ (b, cb) # map (\<lambda>v. (v, cb)) r)
        = interp_at x ((b, cb) # map (\<lambda>v. (v, cb)) r)"
    using assms(2,3) by (intro interp_at_skip) (auto simp: w2)
  also have "\<dots> = interp_at x (map (\<lambda>v. (v, cb)) w2)" by (simp add: w2)
  also have "\<dots> = cb" using assms(1) by (rule interp_at_const)
  finally show ?thesis by (simp add: w2)
qed

lemma zip_replicate_const: "zip xs (replicate (length xs) c) = map (\<lambda>v. (v, c)) xs"
  by (induction xs) auto

lemma sorted_hd_le: "sorted_wrt (<) w \<Longrightarrow> v \<in> set w \<Longrightarrow> hd w \<le> (v :: real)"
  by (cases w) auto

lemma sorted_le_last: "sorted_wrt (<) w \<Longrightarrow> v \<in> set w \<Longrightarrow> (v :: real) \<le> last w"
  by (induction w) (auto simp: less_imp_le)

lemma interp1_two_runs:
  assumes sorted: "sorted_wrt (<) (A @ w1 @ M @ w2 @ B)"
    and ne: "w1 \<noteq> []" "w2 \<noteq> []"
    and x: "x \<in> set (A @ w1 @ M @ w2 @ B)"
  shows "interp1 x (w1 @ w2) (replicate (length w1) ca @ replicate (length w2) cb)
         = (if x \<le> last w1 then ca
            else if hd w2 \<le> x then cb
            else (cb - ca) / (hd w2 - last w1) * (x - last w1) + ca)"
proof -
  let ?xp = "w1 @ w2"
  let ?fp = "replicate (length w1) ca @ replicate (length w2) cb"
  have zip: "zip ?xp ?fp = map (\<lambda>v. (v, ca)) w1 @ map (\<lambda>v. (v, cb)) w2"
    by (simp add: zip_replicate_const)
  have hd_xp: "hd ?xp = hd w1" and last_xp: "last ?xp = last w2"
    and hd_fp: "hd ?fp = ca" and last_fp: "last ?fp = cb"
    using ne by (simp_all add: hd_append hd_replicate last_replicate)
  have s1: "sorted_wrt (<) w1" and s2: "sorted_wrt (<) w2" and s12: "sorted_wrt (<) (w1 @ w2)"
    using sorted by (auto simp: sorted_wrt_append)
  have l1: "last w1 \<in> set w1" and h1: "hd w1 \<in> set w1"
    and l2: "last w2 \<in> set w2" and h2: "hd w2 \<in> set w2"
    using ne by simp_all
  have lt12: "last w1 < hd w2" using sorted l1 h2 by (auto simp: sorted_wrt_append)
  from x consider (A) "x \<in> set A" | (w1) "x \<in> set w1" | (M) "x \<in> set M"
    | (w2) "x \<in> set w2" | (B) "x \<in> set B" by auto
  then show ?thesis
  proof cases
    case A
    then have "x < hd w1" "x < last w1" using sorted h1 l1 by (auto simp: sorted_wrt_append)
    then show ?thesis by (simp add: interp1_def hd_xp hd_fp)
  next
    case w1
    have a: "hd w1 \<le> x" "x \<le> last w1" using s1 w1 by (auto intro: sorted_hd_le sorted_le_last)
    have "x < hd w2" using a(2) lt12 by simp
    then have "x \<le> last w2" using sorted_le_last [OF s2 h2] by simp
    moreover have "interp_at x (zip ?xp ?fp) = ca"
      unfolding zip using w1 s12 ne(2) by (rule interp_at_first_run)
    ultimately show ?thesis using a by (simp add: interp1_def hd_xp last_xp)
  next
    case M
    have a: "\<forall>v \<in> set w1. v < x" "\<forall>v \<in> set w2. x < v"
      using sorted M by (auto simp: sorted_wrt_append)
    then have b: "last w1 < x" "x < hd w2" "hd w1 < x" "x < last w2" using l1 h2 h1 l2 by auto
    have "interp_at x (zip ?xp ?fp) = (cb - ca) / (hd w2 - last w1) * (x - last w1) + ca"
      unfolding zip using ne a(1) b(1,2) by (intro interp_at_ramp) (auto simp: less_imp_le)
    then show ?thesis using b by (simp add: interp1_def hd_xp last_xp)
  next
    case w2
    have a: "hd w2 \<le> x" "x \<le> last w2" using s2 w2 by (auto intro: sorted_hd_le sorted_le_last)
    have b: "\<forall>v \<in> set w1. v < x" using sorted w2 by (auto simp: sorted_wrt_append)
    then have c: "last w1 < x" "hd w1 < x" using l1 h1 by auto
    have "interp_at x (zip ?xp ?fp) = cb"
      unfolding zip using ne(2) b a(1) by (intro interp_at_second_run) (auto simp: less_imp_le)
    then show ?thesis using a c by (simp add: interp1_def hd_xp last_xp)
  next
    case B
    have a: "\<forall>v \<in> set w1. v < x" "\<forall>v \<in> set w2. v < x"
      using sorted B by (auto simp: sorted_wrt_append)
    then have "last w1 < x" "hd w1 < x" "last w2 < x" "hd w2 < x" using l1 h1 l2 h2 by auto
    then show ?thesis by (simp add: interp1_def hd_xp last_xp last_fp)
  qed
qed

subsection \<open>The claims on the background subtraction\<close>

text \<open>
  Claim C6, as stated, fails on the code. The curve has 7 samples, the feature is
  nearest to index 1 and the chunk size is 2, so the window covers the indices
  \<open>-1, ..., 3\<close> and extends below the start of the data. No exception is raised: the
  index \<open>-1\<close> is the last sample, the chunk is \<open>[6, 0, 1, 2, 3]\<close> with the intensities
  \<open>[7, 5, 1, 2, 3]\<close>, and with a fit that returns its initial guess, whose constant is
  the least intensity of the chunk, the function returns the constant background 1 (all
  interpolated values are equal, so the order of the sample points does not matter).
\<close>

theorem inelasticBGSubstract_window_below_zero:
  "nearest [0, 1, 2, 3, 4, 5, 6] 1 = 1 \<and> int 1 - 2 < 0
   \<and> inelasticBGSubstract fit_initial_guess
        [0, 1, 2, 3, 4, 5, 6] [5, 1, 2, 3, 4, 9, 7] [(1, 1)] 2
      = Inr ([0, 1, 2, 3, 4, 5, 6], [1, 1, 1, 1, 1, 1, 1])"
  by (simp add: inelasticBGSubstract_def nearest_index_def nearest_def arange_def
      take_indices_def parameter_guesses_def fit_initial_guess_def interp_def interp1_def
      eval_nat_numeral Let_def)

text \<open>
  Claim C6, amended. For a non-empty curve with as many intensities as positions, a
  non-empty list of features and a chunk size that is not negative, the function
  fails with an IndexError exactly when the window of some feature extends past the
  upper end of the data, that is when the index nearest to the feature plus the chunk
  size reaches the length of the data. The error is raised while the chunks are
  extracted, before any fit. A window that only extends below index 0 raises no
  IndexError: its negative indices count from the end of the data.
\<close>

theorem inelasticBGSubstract_IndexError_iff:
  assumes "xdata \<noteq> []" and "length ydata = length xdata" and "points \<noteq> []"
    and "0 \<le> chunk_size"
  shows "inelasticBGSubstract curve_fit xdata ydata points chunk_size = Inl IndexError
         \<longleftrightarrow> (\<exists>p \<in> set points. int (length xdata) \<le> int (nearest xdata (fst p)) + chunk_size)"
proof -
  have ch: "chunks xdata ydata chunk_size (map fst points) = Inl IndexError
            \<longleftrightarrow> (\<exists>p \<in> set points. int (length xdata) \<le> int (nearest xdata (fst p)) + chunk_size)"
    using chunks_IndexError [OF assms(1,2,4), of "map fst points"] by auto
  show ?thesis
  proof (cases "chunks xdata ydata chunk_size (map fst points)")
    case (Inl e)
    then have "e = IndexError"
      using chunks_IndexError [OF assms(1,2,4), of "map fst points"] by blast
    with Inl ch assms(3) show ?thesis by (simp add: inelasticBGSubstract_def)
  next
    case (Inr cks)
    with ch have no: "\<not> (\<exists>p \<in> set points. int (length xdata) \<le> int (nearest xdata (fst p)) + chunk_size)"
      by simp
    have "inelasticBGSubstract curve_fit xdata ydata points chunk_size \<noteq> Inl IndexError"
      using Inr assms(3) fit_constants_error interp_error
      by (auto simp: inelasticBGSubstract_def Let_def split: sum.splits)
    with no show ?thesis by simp
  qed
qed

theorem inelasticBGSubstract_IndexError_iff_witness:
  "[0, 1, 2, 3, 4, 5, 6 :: real] \<noteq> []
   \<and> length [5, 1, 2, 3, 4, 9, 7 :: real] = length [0, 1, 2, 3, 4, 5, 6 :: real]
   \<and> [(5, 9 :: real)] \<noteq> [] \<and> (0 :: int) \<le> 2
   \<and> nearest [0, 1, 2, 3, 4, 5, 6] 5 = 5
   \<and> inelasticBGSubstract fit_initial_guess
        [0, 1, 2, 3, 4, 5, 6] [5, 1, 2, 3, 4, 9, 7] [(5, 9)] 2 = Inl IndexError"
  using inelasticBGSubstract_IndexError_iff [of "[0, 1, 2, 3, 4, 5, 6]" "[5, 1, 2, 3, 4, 9, 7]"
      "[(5, 9)]" 2 fit_initial_guess]
  by (simp add: nearest_def)

text \<open>
  Claim C7. The positions \<open>xdata\<close> are strictly increasing and there are two features,
  whose windows lie inside the data, the first one wholly before the second one, and
  whose fits return the constants \<open>ca\<close> and \<open>cb\<close>. Then the function returns a background
  that is \<open>ca\<close> at every position up to the last position of the first chunk, \<open>cb\<close> at every
  position from the first position of the second chunk on, and on the straight line
  between these two points at the positions strictly in between.
\<close>

theorem background_two_features:
  fixes k i1 i2 :: nat
  assumes sorted: "sorted_wrt (<) xdata" and len: "length ydata = length xdata"
    and i1: "i1 = nearest xdata f1" and i2: "i2 = nearest xdata f2"
    and lo: "k \<le> i1" and gap: "i1 + k < i2 - k" and hi: "i2 + k < length xdata"
    and fit1: "curve_fit pseudoVoigt
                 (take (2 * k + 1) (drop (i1 - k) xdata)) (take (2 * k + 1) (drop (i1 - k) ydata))
                 (parameter_guesses (take (2 * k + 1) (drop (i1 - k) xdata))
                                    (take (2 * k + 1) (drop (i1 - k) ydata)))
               = Some (h1, m1, g1, l1, ca)"
    and fit2: "curve_fit pseudoVoigt
                 (take (2 * k + 1) (drop (i2 - k) xdata)) (take (2 * k + 1) (drop (i2 - k) ydata))
                 (parameter_guesses (take (2 * k + 1) (drop (i2 - k) xdata))
                                    (take (2 * k + 1) (drop (i2 - k) ydata)))
               = Some (h2, m2, g2, l2, cb)"
  shows "inelasticBGSubstract curve_fit xdata ydata [(f1, v1), (f2, v2)] (int k)
         = Inr (xdata,
                map (\<lambda>x. if x \<le> xdata ! (i1 + k) then ca
                         else if xdata ! (i2 - k) \<le> x then cb
                         else (cb - ca) / (xdata ! (i2 - k) - xdata ! (i1 + k))
                                * (x - xdata ! (i1 + k)) + ca) xdata)"
proof -
  let ?n = "2 * k + 1"
  let ?wx1 = "take ?n (drop (i1 - k) xdata)" and ?wy1 = "take ?n (drop (i1 - k) ydata)"
  let ?wx2 = "take ?n (drop (i2 - k) xdata)" and ?wy2 = "take ?n (drop (i2 - k) ydata)"
  have k2: "k \<le> i2" and b1: "i1 + k < length xdata" using gap hi by simp_all
  have ne: "xdata \<noteq> []" using hi by auto
  have lens: "length ?wx1 = ?n" "length ?wx2 = ?n" "length ?wy1 = ?n" "length ?wy2 = ?n"
    using lo k2 b1 hi len by simp_all
  then have nonempty: "?wx1 \<noteq> []" "?wx2 \<noteq> []" "?wy1 \<noteq> []" "?wy2 \<noteq> []"
    by (metis Suc_eq_plus1 length_0_conv nat.distinct(1))+
  have ch: "chunks xdata ydata (int k) [f1, f2] = Inr [(?wx1, ?wy1), (?wx2, ?wy2)]"
    using ne lo k2 b1 hi len
    by (simp add: nearest_index_def i1 [symmetric] i2 [symmetric] take_indices_in_range)
  have fc: "fit_constants curve_fit [(?wx1, ?wy1), (?wx2, ?wy2)]
            = Inr [replicate (length ?wx1) ca, replicate (length ?wx2) cb]"
    using nonempty fit1 fit2 by simp
  have ip: "interp xdata (?wx1 @ ?wx2) (replicate (length ?wx1) ca @ replicate (length ?wx2) cb)
            = Inr (map (\<lambda>v. interp1 v (?wx1 @ ?wx2)
                               (replicate (length ?wx1) ca @ replicate (length ?wx2) cb)) xdata)"
    using nonempty by (simp add: interp_def)
  have res: "inelasticBGSubstract curve_fit xdata ydata [(f1, v1), (f2, v2)] (int k)
        = Inr (xdata, map (\<lambda>v. interp1 v (?wx1 @ ?wx2)
                               (replicate (length ?wx1) ca @ replicate (length ?wx2) cb)) xdata)"
    unfolding inelasticBGSubstract_def using ch fc ip by simp
  have s: "(i1 - k) + ?n \<le> i2 - k" using lo gap by simp
  have dec: "xdata = take (i1 - k) xdata @ ?wx1
               @ take ((i2 - k) - ((i1 - k) + ?n)) (drop ((i1 - k) + ?n) xdata)
               @ ?wx2 @ drop ((i2 - k) + ?n) xdata"
    using s by (rule split_windows)
  have last1: "last ?wx1 = xdata ! (i1 + k)"
    using lo b1 nonempty(1) lens(1) by (simp add: last_conv_nth add.commute)
  have hd2: "hd ?wx2 = xdata ! (i2 - k)"
    using k2 hi by (simp add: hd_drop_conv_nth)
  have "interp1 x (?wx1 @ ?wx2) (replicate (length ?wx1) ca @ replicate (length ?wx2) cb)
        = (if x \<le> xdata ! (i1 + k) then ca
           else if xdata ! (i2 - k) \<le> x then cb
           else (cb - ca) / (xdata ! (i2 - k) - xdata ! (i1 + k)) * (x - xdata ! (i1 + k)) + ca)"
    if "x \<in> set xdata" for x
  proof -
    let ?A = "take (i1 - k) xdata"
    let ?M = "take ((i2 - k) - ((i1 - k) + ?n)) (drop ((i1 - k) + ?n) xdata)"
    let ?B = "drop ((i2 - k) + ?n) xdata"
    have srt: "sorted_wrt (<) (?A @ ?wx1 @ ?M @ ?wx2 @ ?B)" using sorted dec by simp
    have xin: "x \<in> set (?A @ ?wx1 @ ?M @ ?wx2 @ ?B)" using that dec by simp
    from interp1_two_runs [OF srt nonempty(1) nonempty(2) xin, of ca cb]
    show ?thesis unfolding last1 hd2 .
  qed
  then show ?thesis by (simp add: res)
qed

theorem background_two_features_witness:
  "sorted_wrt (<) [0, 1, 2, 3, 4, 5, 6, 7, 8, 9, 10, 11 :: real]
   \<and> length [3, 4, 9, 4, 3, 5, 5, 6, 7, 12, 7, 6 :: real]
       = length [0, 1, 2, 3, 4, 5, 6, 7, 8, 9, 10, 11 :: real]
   \<and> nearest [0, 1, 2, 3, 4, 5, 6, 7, 8, 9, 10, 11] 2 = 2
   \<and> nearest [0, 1, 2, 3, 4, 5, 6, 7, 8, 9, 10, 11] 9 = 9
   \<and> inelasticBGSubstract fit_initial_guess
        [0, 1, 2, 3, 4, 5, 6, 7, 8, 9, 10, 11] [3, 4, 9, 4, 3, 5, 5, 6, 7, 12, 7, 6]
        [(2, 9), (9, 12)] 2
      = Inr ([0, 1, 2, 3, 4, 5, 6, 7, 8, 9, 10, 11], [3, 3, 3, 3, 3, 4, 5, 6, 6, 6, 6, 6])"
  using background_two_features [where xdata = "[0, 1, 2, 3, 4, 5, 6, 7, 8, 9, 10, 11]"
      and ydata = "[3, 4, 9, 4, 3, 5, 5, 6, 7, 12, 7, 6]" and k = 2 and ?i1.0 = 2 and ?i2.0 = 9
      and ?f1.0 = 2 and ?f2.0 = 9 and curve_fit = fit_initial_guess
      and ?h1.0 = 6 and ?m1.0 = 2 and ?g1.0 = 1 and ?l1.0 = 1 and ca = 3
      and ?h2.0 = 6 and ?m2.0 = 2 and ?g2.0 = 1 and ?l2.0 = 1 and cb = 6
      and ?v1.0 = 9 and ?v2.0 = 12]
  by (simp add: nearest_def parameter_guesses_def fit_initial_guess_def)

end
